theory Spec2Isabelle
  imports Complex_Main
begin

section \<open>Fire and smoke detection: frame buffers, detection gate, dispatch, response tracking\<close>

text \<open>
  A shallow embedding of \<^verbatim>\<open>fire_detection.py\<close> and of the firefighter part of
  \<^verbatim>\<open>database.py\<close>. Clock readings (\<^verbatim>\<open>time.time()\<close>, \<^verbatim>\<open>datetime.now()\<close>) are
  arguments of the functions that read the clock; seconds and confidences are real
  numbers; the module-level dictionaries and the SQLite tables are fields of an explicit
  state that every function takes and returns.
\<close>

subsection \<open>Settings\<close>

definition CLIP_BEFORE_SEC :: real where
  "CLIP_BEFORE_SEC = 1"

definition CLIP_AFTER_SEC :: real where
  "CLIP_AFTER_SEC = 4"

definition CLIP_DURATION_SEC :: real where
  "CLIP_DURATION_SEC = CLIP_BEFORE_SEC + CLIP_AFTER_SEC"

definition CLIP_BUFFER_SEC :: real where
  "CLIP_BUFFER_SEC = CLIP_DURATION_SEC + 2"

definition FIRE_CONFIDENCE_THRESHOLD :: real where
  "FIRE_CONFIDENCE_THRESHOLD = 70 / 100"

definition SMOKE_CONFIDENCE_THRESHOLD :: real where
  "SMOKE_CONFIDENCE_THRESHOLD = 65 / 100"

subsection \<open>SQL values\<close>

text \<open>
  A nullable column is an option, \<open>None\<close> for NULL. The comparison \<^verbatim>\<open>col = ?\<close> of a
  WHERE clause selects a row only when both sides are present and equal.
\<close>

definition sql_eq :: "'a option \<Rightarrow> 'a option \<Rightarrow> bool" where
  "sql_eq a b = (case a of None \<Rightarrow> False | Some x \<Rightarrow> (case b of None \<Rightarrow> False | Some y \<Rightarrow> x = y))"

text \<open>
  The text of a timestamp column, as \<^verbatim>\<open>datetime.fromisoformat\<close> reads it: a naive
  date-time (the second its fields name), a date-time with a UTC offset (the second of
  the instant), or text the parser raises on (NULL included, where it raises TypeError).
\<close>

datatype timestamp = Naive real | Aware real | Malformed

text \<open>An AUTOINCREMENT key: one more than the largest key of the table, 1 for an empty one.\<close>

definition next_id :: "int list \<Rightarrow> int" where
  "next_id ids = fold max ids 0 + 1"

subsection \<open>Tables of \<^verbatim>\<open>database.py\<close>\<close>

text \<open>
  Columns that only carry text for the dashboard (messages, image paths, coordinates,
  creation times of the roster) are left out; so are the tables \<^verbatim>\<open>stats\<close>,
  \<^verbatim>\<open>detection_history\<close>, \<^verbatim>\<open>activity\<close>, \<^verbatim>\<open>personnel\<close>, \<^verbatim>\<open>stations\<close> and
  \<^verbatim>\<open>notifications\<close>, which none of the modelled operations reads.
  A clip file \<^verbatim>\<open>camera{c}_det_{d}.mp4\<close> is named by the pair \<open>(c, d)\<close>.
\<close>

record camera =
  cam_name :: string
  cam_location :: string

record detection =
  det_id :: int
  det_camera_id :: int
  det_camera_name :: string
  det_type :: string
  det_confidence :: real
  det_location :: string
  clip_path :: "(int \<times> int) option"

record alert =
  al_id :: int
  al_detection_id :: int
  alert_level :: string
  al_status :: string

record firefighter =
  ff_id :: int
  ff_name :: string
  ff_phone :: string
  ff_station :: "int option"
  ff_status :: string

record firefighter_alert =
  fa_id :: int
  fa_alert_id :: int
  fa_detection_id :: int
  fa_firefighter_id :: "int option"
  fa_station_id :: "int option"
  fa_alert_type :: string
  fa_location :: string
  fa_area :: string
  fa_confidence :: real
  fa_status :: string
  fa_response_type :: "string option"
  fa_received_at :: timestamp
  fa_responded_at :: "timestamp option"

record firefighter_stat =
  fs_id :: int
  fs_firefighter_id :: "int option"
  total_responded :: int
  total_acknowledged :: int
  total_alerts_today :: int
  avg_response_time_seconds :: real
  last_response_at :: "timestamp option"
  stats_date :: "string option"

record database =
  detections :: "detection list"
  alerts :: "alert list"
  firefighters :: "firefighter list"
  firefighter_alerts :: "firefighter_alert list"
  firefighter_stats :: "firefighter_stat list"

subsection \<open>Operations of \<^verbatim>\<open>database.py\<close>\<close>

definition log_detection ::
  "int \<Rightarrow> string \<Rightarrow> real \<Rightarrow> string \<Rightarrow> string \<Rightarrow> database \<Rightarrow> int \<times> database" where
  "log_detection camera_id detection_type confidence location camera_name d =
     (let new_id = next_id (map det_id (detections d));
          row = \<lparr>det_id = new_id, det_camera_id = camera_id, det_camera_name = camera_name,
                 det_type = detection_type, det_confidence = confidence,
                 det_location = location, clip_path = None\<rparr>
      in (new_id, d\<lparr>detections := detections d @ [row]\<rparr>))"

definition create_alert :: "int \<Rightarrow> string \<Rightarrow> database \<Rightarrow> int \<times> database" where
  "create_alert detection_id level d =
     (let new_id = next_id (map al_id (alerts d));
          row = \<lparr>al_id = new_id, al_detection_id = detection_id, alert_level = level,
                 al_status = ''active''\<rparr>
      in (new_id, d\<lparr>alerts := alerts d @ [row]\<rparr>))"

definition update_detection_clip :: "int \<Rightarrow> int \<times> int \<Rightarrow> database \<Rightarrow> database" where
  "update_detection_clip detection_id path d =
     d\<lparr>detections := map (\<lambda>r. if det_id r = detection_id then r\<lparr>clip_path := Some path\<rparr> else r)
                           (detections d)\<rparr>"

text \<open>
  The INSERT of \<^verbatim>\<open>create_firefighter_alert\<close> and of the loop of
  \<^verbatim>\<open>broadcast_alert_to_station\<close>; \<open>current_timestamp\<close> is the database's clock, which
  fills \<^verbatim>\<open>received_at\<close>.
\<close>

definition create_firefighter_alert ::
  "int \<Rightarrow> int \<Rightarrow> int option \<Rightarrow> int option \<Rightarrow> string \<Rightarrow> string \<Rightarrow> string \<Rightarrow> real \<Rightarrow> real
     \<Rightarrow> database \<Rightarrow> int \<times> database" where
  "create_firefighter_alert alert_id detection_id firefighter_id station_id alert_type location
     area confidence current_timestamp d =
     (let new_id = next_id (map fa_id (firefighter_alerts d));
          row = \<lparr>fa_id = new_id, fa_alert_id = alert_id, fa_detection_id = detection_id,
                 fa_firefighter_id = firefighter_id, fa_station_id = station_id,
                 fa_alert_type = alert_type, fa_location = location, fa_area = area,
                 fa_confidence = confidence, fa_status = ''pending'', fa_response_type = None,
                 fa_received_at = Naive current_timestamp, fa_responded_at = None\<rparr>
      in (new_id, d\<lparr>firefighter_alerts := firefighter_alerts d @ [row]\<rparr>))"

text \<open>
  The \<^verbatim>\<open>try\<close> block of \<^verbatim>\<open>_update_firefighter_stats\<close>: parsing either text may raise,
  and so does subtracting a naive from an offset-aware date-time; the bare
  \<^verbatim>\<open>except\<close> turns every raise into 0.
\<close>

definition response_time_of :: "timestamp \<Rightarrow> timestamp \<Rightarrow> real" where
  "response_time_of received_at responded_at =
     (case received_at of
        Naive a \<Rightarrow> (case responded_at of Naive b \<Rightarrow> b - a | Aware b \<Rightarrow> 0 | Malformed \<Rightarrow> 0)
      | Aware a \<Rightarrow> (case responded_at of Naive b \<Rightarrow> 0 | Aware b \<Rightarrow> b - a | Malformed \<Rightarrow> 0)
      | Malformed \<Rightarrow> 0)"

text \<open>
  \<^verbatim>\<open>INSERT OR IGNORE INTO firefighter_stats (firefighter_id, stats_date)\<close>: the column
  \<^verbatim>\<open>firefighter_id\<close> is UNIQUE, and NULLs never collide.
\<close>

definition insert_or_ignore_stats ::
  "int option \<Rightarrow> string \<Rightarrow> firefighter_stat list \<Rightarrow> firefighter_stat list" where
  "insert_or_ignore_stats firefighter_id today tbl =
     (if list_ex (\<lambda>r. sql_eq (fs_firefighter_id r) firefighter_id) tbl then tbl
      else tbl @ [\<lparr>fs_id = next_id (map fs_id tbl), fs_firefighter_id = firefighter_id,
                   total_responded = 0, total_acknowledged = 0, total_alerts_today = 0,
                   avg_response_time_seconds = 0, last_response_at = None,
                   stats_date = Some today\<rparr>])"

text \<open>The two UPDATE statements, on one row; every right-hand side reads the old row.\<close>

definition set_responded :: "real \<Rightarrow> timestamp \<Rightarrow> firefighter_stat \<Rightarrow> firefighter_stat" where
  "set_responded response_time responded_at r =
     r\<lparr>total_responded := total_responded r + 1,
       total_alerts_today := total_alerts_today r + 1,
       avg_response_time_seconds :=
         (avg_response_time_seconds r * real_of_int (total_responded r) + response_time)
           / real_of_int (total_responded r + 1),
       last_response_at := Some responded_at\<rparr>"

definition set_acknowledged :: "timestamp \<Rightarrow> firefighter_stat \<Rightarrow> firefighter_stat" where
  "set_acknowledged responded_at r =
     r\<lparr>total_acknowledged := total_acknowledged r + 1,
       total_alerts_today := total_alerts_today r + 1,
       last_response_at := Some responded_at\<rparr>"

text \<open>
  \<^verbatim>\<open>_update_firefighter_stats\<close>, on the table \<^verbatim>\<open>firefighter_stats\<close>. The counters start
  at 0 and are only ever incremented, so the divisor of the average is positive.
\<close>

definition update_firefighter_stats ::
  "int option \<Rightarrow> string \<Rightarrow> timestamp \<Rightarrow> timestamp \<Rightarrow> string
     \<Rightarrow> firefighter_stat list \<Rightarrow> firefighter_stat list" where
  "update_firefighter_stats firefighter_id response_type received_at responded_at today tbl =
     (let response_time = response_time_of received_at responded_at;
          tbl1 = insert_or_ignore_stats firefighter_id today tbl
      in if response_type = ''responded''
         then map (\<lambda>r. if sql_eq (fs_firefighter_id r) firefighter_id
                       then set_responded response_time responded_at r else r) tbl1
         else map (\<lambda>r. if sql_eq (fs_firefighter_id r) firefighter_id
                       then set_acknowledged responded_at r else r) tbl1)"

text \<open>
  \<open>now\<close> is \<^verbatim>\<open>datetime.now()\<close>, whose \<^verbatim>\<open>isoformat()\<close> always parses back to a naive
  date-time. The function returns nothing and raises nothing: the result is the database.
\<close>

definition respond_to_firefighter_alert :: "int \<Rightarrow> string \<Rightarrow> real \<Rightarrow> string \<Rightarrow> database \<Rightarrow> database" where
  "respond_to_firefighter_alert alert_id response_type now today d =
     (let d1 = d\<lparr>firefighter_alerts :=
                  map (\<lambda>r. if fa_id r = alert_id
                            then r\<lparr>fa_status := response_type,
                                   fa_response_type := Some response_type,
                                   fa_responded_at := Some (Naive now)\<rparr>
                            else r)
                      (firefighter_alerts d)\<rparr>
      in case find (\<lambda>r. fa_id r = alert_id) (firefighter_alerts d1) of
           None \<Rightarrow> d1
         | Some row \<Rightarrow>
             d1\<lparr>firefighter_stats :=
                  update_firefighter_stats (fa_firefighter_id row) response_type
                    (fa_received_at row) (Naive now) today (firefighter_stats d1)\<rparr>)"

text \<open>
  \<^verbatim>\<open>SELECT * FROM firefighter_stats WHERE firefighter_id = ?\<close> with \<^verbatim>\<open>fetchone()\<close>, as
  \<^verbatim>\<open>get_firefighter_stats\<close> reads one firefighter's row.
\<close>

definition stats_row :: "int \<Rightarrow> firefighter_stat list \<Rightarrow> firefighter_stat option" where
  "stats_row f tbl = find (\<lambda>r. sql_eq (fs_firefighter_id r) (Some f)) tbl"

text \<open>The \<^verbatim>\<open>for ff in firefighters\<close> loop, collecting \<^verbatim>\<open>alert_ids\<close>.\<close>

fun broadcast_loop ::
  "firefighter list \<Rightarrow> int option \<Rightarrow> int \<Rightarrow> int \<Rightarrow> string \<Rightarrow> string \<Rightarrow> string \<Rightarrow> real \<Rightarrow> real
     \<Rightarrow> int list \<Rightarrow> database \<Rightarrow> int list \<times> database" where
  "broadcast_loop [] station_id alert_id detection_id alert_type location area confidence
     current_timestamp alert_ids d = (alert_ids, d)"
| "broadcast_loop (ff # ffs) station_id alert_id detection_id alert_type location area confidence
     current_timestamp alert_ids d =
     (let r = create_firefighter_alert alert_id detection_id (Some (ff_id ff)) station_id
                alert_type location area confidence current_timestamp d
      in broadcast_loop ffs station_id alert_id detection_id alert_type location area confidence
           current_timestamp (alert_ids @ [fst r]) (snd r))"

definition broadcast_alert_to_station ::
  "int option \<Rightarrow> int \<Rightarrow> int \<Rightarrow> string \<Rightarrow> string \<Rightarrow> string \<Rightarrow> real \<Rightarrow> real
     \<Rightarrow> database \<Rightarrow> int list \<times> database" where
  "broadcast_alert_to_station station_id alert_id detection_id alert_type location area confidence
     current_timestamp d =
     (let selected = filter (\<lambda>f. sql_eq (ff_station f) station_id \<and> ff_status f = ''online'')
                       (firefighters d)
      in broadcast_loop selected station_id alert_id detection_id alert_type location area
           confidence current_timestamp [] d)"

subsection \<open>State of \<^verbatim>\<open>fire_detection.py\<close>\<close>

record pending_clip =
  pc_detection_id :: int
  trigger_time :: real

text \<open>
  A clip written by \<^verbatim>\<open>save_detection_clip\<close>: its file name, frame rate and frames in
  the order they were encoded (the overlay drawn on each frame is not modelled).
\<close>

record 'f clip =
  clip_name :: "int \<times> int"
  clip_fps :: real
  clip_frames :: "'f list"

text \<open>
  \<open>CAMERAS_CACHE\<close> is the cache once filled: every loop fills it
  (\<^verbatim>\<open>get_camera_info\<close>, \<^verbatim>\<open>refresh_camera_cache\<close>) before its first frame, and nothing
  empties it afterwards. \<open>clips\<close> lists the clip files written, oldest first.
\<close>

record 'f world =
  FRAME_BUFFERS :: "int \<rightharpoonup> (real \<times> 'f) list"
  PENDING_CLIPS :: "int \<rightharpoonup> pending_clip"
  CAMERAS_CACHE :: "int \<rightharpoonup> camera"
  db :: database
  clips :: "'f clip list"

definition get_camera_info :: "int \<Rightarrow> 'f world \<Rightarrow> camera option" where
  "get_camera_info camera_id w = CAMERAS_CACHE w camera_id"

subsection \<open>Frame buffer\<close>

text \<open>\<^verbatim>\<open>FRAME_BUFFERS.get(camera_id, [])\<close>.\<close>

definition buffer_of :: "'f world \<Rightarrow> int \<Rightarrow> (real \<times> 'f) list" where
  "buffer_of w camera_id = (case FRAME_BUFFERS w camera_id of None \<Rightarrow> [] | Some b \<Rightarrow> b)"

text \<open>The loop \<^verbatim>\<open>while buf and buf[0][0] < cutoff: buf.pop(0)\<close>.\<close>

fun evict :: "real \<Rightarrow> (real \<times> 'f) list \<Rightarrow> (real \<times> 'f) list" where
  "evict cutoff [] = []"
| "evict cutoff (s # buf) = (if fst s < cutoff then evict cutoff buf else s # buf)"

definition update_frame_buffer :: "int \<Rightarrow> 'f \<Rightarrow> real \<Rightarrow> 'f world \<Rightarrow> 'f world" where
  "update_frame_buffer camera_id frame now w =
     (let buf = buffer_of w camera_id @ [(now, frame)];
          cutoff = now - CLIP_BUFFER_SEC
      in w\<lparr>FRAME_BUFFERS := (FRAME_BUFFERS w)(camera_id \<mapsto> evict cutoff buf)\<rparr>)"

text \<open>
  The frames \<^verbatim>\<open>save_detection_clip\<close> selects, each still paired with its capture time:
  those inside the window, or the whole buffer when the window holds none.
  \<^verbatim>\<open>selected_frames\<close> of the source is \<open>map snd\<close> of this list.
\<close>

definition selected_samples :: "(real \<times> 'f) list \<Rightarrow> real \<Rightarrow> (real \<times> 'f) list" where
  "selected_samples buf trigger =
     (let start_time = trigger - CLIP_BEFORE_SEC;
          end_time = trigger + CLIP_AFTER_SEC;
          sel = filter (\<lambda>s. start_time \<le> fst s \<and> fst s \<le> end_time) buf
      in if sel = [] then buf else sel)"

definition save_detection_clip ::
  "int \<Rightarrow> int \<Rightarrow> real \<Rightarrow> 'f world \<Rightarrow> (int \<times> int) option \<times> 'f world" where
  "save_detection_clip camera_id detection_id trigger w =
     (let buf = buffer_of w camera_id
      in if buf = [] then (None, w)
         else
           (let start_time = trigger - CLIP_BEFORE_SEC;
                end_time = trigger + CLIP_AFTER_SEC;
                selected_frames = map snd (selected_samples buf trigger);
                duration0 = end_time - start_time;
                duration = (if duration0 \<le> 0 then CLIP_DURATION_SEC else duration0);
                fps = (if length selected_frames > 1
                       then real (length selected_frames) / duration else 10);
                save_path = (camera_id, detection_id);
                out = \<lparr>clip_name = save_path, clip_fps = fps, clip_frames = selected_frames\<rparr>
            in (Some save_path,
                w\<lparr>clips := clips w @ [out],
                  db := update_detection_clip detection_id save_path (db w)\<rparr>)))"

definition handle_pending_clips :: "int \<Rightarrow> real \<Rightarrow> 'f world \<Rightarrow> 'f world" where
  "handle_pending_clips camera_id now w =
     (case PENDING_CLIPS w camera_id of
        None \<Rightarrow> w
      | Some pending \<Rightarrow>
          if now \<ge> trigger_time pending + CLIP_AFTER_SEC
          then (let w1 = snd (save_detection_clip camera_id (pc_detection_id pending)
                                (trigger_time pending) w)
                in w1\<lparr>PENDING_CLIPS := (PENDING_CLIPS w1)(camera_id := None)\<rparr>)
          else w)"

subsection \<open>Detection gate\<close>

datatype error = TypeError

text \<open>
  One box of the classifier's output: the class label after \<^verbatim>\<open>.lower()\<close> and the
  confidence. \<open>results\<close> is a list of results, each a list of boxes.
\<close>

type_synonym box = "string \<times> real"

fun startswith :: "string \<Rightarrow> string \<Rightarrow> bool" where
  "startswith [] s = True"
| "startswith (c # cs) [] = False"
| "startswith (c # cs) (d # ds) = (c = d \<and> startswith cs ds)"

text \<open>The substring test \<^verbatim>\<open>sub in s\<close>.\<close>

fun py_in :: "string \<Rightarrow> string \<Rightarrow> bool" where
  "py_in sub [] = (sub = [])"
| "py_in sub (d # ds) = (startswith sub (d # ds) \<or> py_in sub ds)"

text \<open>
  The dictionary \<^verbatim>\<open>detection_info\<close>; the key \<^verbatim>\<open>'detection_id'\<close> is present only
  after a detection was logged.
\<close>

record detection_info =
  has_fire :: bool
  has_smoke :: bool
  max_fire_confidence :: real
  max_smoke_confidence :: real
  detection_id :: "int option"

definition init_info :: detection_info where
  "init_info = \<lparr>has_fire = False, has_smoke = False, max_fire_confidence = 0,
                max_smoke_confidence = 0, detection_id = None\<rparr>"

definition scan_box :: "box \<Rightarrow> detection_info \<Rightarrow> detection_info" where
  "scan_box b info =
     (if py_in ''fire'' (fst b)
      then info\<lparr>has_fire := True, max_fire_confidence := max (max_fire_confidence info) (snd b)\<rparr>
      else if py_in ''smoke'' (fst b)
      then info\<lparr>has_smoke := True, max_smoke_confidence := max (max_smoke_confidence info) (snd b)\<rparr>
      else info)"

text \<open>The two nested loops over results and boxes: the raw observation of one frame.\<close>

definition observe :: "box list list \<Rightarrow> detection_info" where
  "observe results = fold (\<lambda>result info. fold scan_box result info) results init_info"

text \<open>
  The class that wins a frame and its confidence: fire unless smoke is strictly more
  confident; and the class's threshold.
\<close>

definition log_type_of :: "detection_info \<Rightarrow> string" where
  "log_type_of info =
     (if max_fire_confidence info \<ge> max_smoke_confidence info then ''fire'' else ''smoke'')"

definition confidence_of :: "detection_info \<Rightarrow> real" where
  "confidence_of info =
     (if max_fire_confidence info \<ge> max_smoke_confidence info
      then max_fire_confidence info else max_smoke_confidence info)"

definition threshold_of :: "string \<Rightarrow> real" where
  "threshold_of log_type =
     (if log_type = ''fire'' then FIRE_CONFIDENCE_THRESHOLD else SMOKE_CONFIDENCE_THRESHOLD)"

text \<open>
  \<open>now\<close> is the reading of \<^verbatim>\<open>time.time()\<close> taken for the pending clip. With no entry
  for the camera, \<^verbatim>\<open>camera['location']\<close> raises TypeError.
\<close>

definition process_detection_results ::
  "box list list \<Rightarrow> int \<Rightarrow> 'f \<Rightarrow> bool \<Rightarrow> real \<Rightarrow> 'f world
     \<Rightarrow> error + (detection_info \<times> 'f world)" where
  "process_detection_results results camera_id frame save_image now w =
     (let info = observe results
      in if save_image \<and> (has_fire info \<or> has_smoke info) then
           (let log_type = log_type_of info;
                confidence = confidence_of info;
                threshold = threshold_of log_type
            in if confidence \<ge> threshold then
                 (case get_camera_info camera_id w of
                    None \<Rightarrow> Inl TypeError
                  | Some camera \<Rightarrow>
                      (let logged = log_detection camera_id log_type confidence
                                      (cam_location camera) (cam_name camera) (db w);
                           d1 = (if confidence \<ge> 85 / 100
                                 then snd (create_alert (fst logged)
                                             (if log_type = ''fire'' then ''critical'' else ''warning'')
                                             (snd logged))
                                 else snd logged)
                       in Inr (info\<lparr>detection_id := Some (fst logged)\<rparr>,
                               w\<lparr>db := d1,
                                 PENDING_CLIPS := (PENDING_CLIPS w)(camera_id \<mapsto>
                                   \<lparr>pc_detection_id = fst logged, trigger_time = now\<rparr>)\<rparr>)))
               else Inr (info, w))
         else Inr (info, w))"

text \<open>
  The two tests a frame passes before it is logged: a fire or smoke box was seen, and the
  winning class reaches its threshold.
\<close>

definition qualifies :: "box list list \<Rightarrow> bool" where
  "qualifies results = ((has_fire (observe results) \<or> has_smoke (observe results))
       \<and> threshold_of (log_type_of (observe results)) \<le> confidence_of (observe results))"

text \<open>The ids of the detections logged so far.\<close>

definition logged_ids :: "'f world \<Rightarrow> int list" where
  "logged_ids w = map det_id (detections (db w))"

subsection \<open>Capture loop\<close>

text \<open>The truth value of \<^verbatim>\<open>detection_info.get('detection_id')\<close>.\<close>

definition truthy :: "int option \<Rightarrow> bool" where
  "truthy v = (case v of None \<Rightarrow> False | Some n \<Rightarrow> n \<noteq> 0)"

text \<open>
  The block under \<^verbatim>\<open>if frame_count % 5 == 0\<close>: the same text in
  \<^verbatim>\<open>detect_from_webcam\<close> and, once per camera, in \<^verbatim>\<open>detect_dual_cameras\<close>. It takes
  the cooldown counter and returns the observation, the new counter and the new state.
\<close>

definition gate_block ::
  "int \<Rightarrow> box list list \<Rightarrow> 'f \<Rightarrow> real \<Rightarrow> int \<Rightarrow> 'f world
     \<Rightarrow> error + (detection_info \<times> int \<times> 'f world)" where
  "gate_block camera_id results frame now detection_cooldown w =
     (let should_save = (detection_cooldown \<le> 0)
      in case process_detection_results results camera_id frame should_save now w of
           Inl e \<Rightarrow> Inl e
         | Inr r \<Rightarrow>
             (let c1 = (if truthy (detection_id (fst r)) then 300 else detection_cooldown);
                  c2 = (if c1 > 0 then c1 - 1 else c1)
              in Inr (fst r, c2, snd r)))"

text \<open>
  What one pass of the loop body reads: the captured frame, the classifier's output on
  it, and the three clock readings (frame buffer, pending clip check, detection).
\<close>

record 'f capture =
  cap_frame :: 'f
  cap_results :: "box list list"
  t_buffer :: real
  t_pending :: real
  t_detect :: real

record 'f loop_state =
  frame_count :: int
  detection_cooldown :: int
  last_frame_save :: int
  world :: "'f world"

text \<open>
  One pass of the \<^verbatim>\<open>while True\<close> body of \<^verbatim>\<open>detect_from_webcam\<close>. The display,
  the key handling, the live-frame file and the temperature written to the \<^verbatim>\<open>cameras\<close>
  table are left out: they touch nothing that is modelled.
\<close>

definition webcam_frame :: "int \<Rightarrow> 'f capture \<Rightarrow> 'f loop_state \<Rightarrow> error + 'f loop_state" where
  "webcam_frame camera_id c s =
     (let w1 = update_frame_buffer camera_id (cap_frame c) (t_buffer c) (world s);
          w2 = handle_pending_clips camera_id (t_pending c) w1;
          n = frame_count s + 1;
          saved = (if n - last_frame_save s \<ge> 10 then n else last_frame_save s)
      in if n mod 5 = 0 then
           (case gate_block camera_id (cap_results c) (cap_frame c) (t_detect c)
                   (detection_cooldown s) w2 of
              Inl e \<Rightarrow> Inl e
            | Inr r \<Rightarrow> Inr \<lparr>frame_count = n, detection_cooldown = fst (snd r),
                            last_frame_save = saved, world = snd (snd r)\<rparr>)
         else Inr \<lparr>frame_count = n, detection_cooldown = detection_cooldown s,
                   last_frame_save = saved, world = w2\<rparr>)"

text \<open>
  The loop over the frames the camera delivers until it stops or the operator quits; an
  exception ends the loop.
\<close>

fun webcam_frames :: "int \<Rightarrow> 'f capture list \<Rightarrow> 'f loop_state \<Rightarrow> error + 'f loop_state" where
  "webcam_frames camera_id [] s = Inr s"
| "webcam_frames camera_id (c # cs) s =
     (case webcam_frame camera_id c s of
        Inl e \<Rightarrow> Inl e
      | Inr s1 \<Rightarrow> webcam_frames camera_id cs s1)"

text \<open>
  \<^verbatim>\<open>detect_from_webcam\<close> with the webcam open: the camera's cache entry is read before
  the loop (\<^verbatim>\<open>camera['name']\<close>), the counters start at zero.
\<close>

definition detect_from_webcam :: "int \<Rightarrow> 'f capture list \<Rightarrow> 'f world \<Rightarrow> error + 'f loop_state" where
  "detect_from_webcam camera_id cs w =
     (case get_camera_info camera_id w of
        None \<Rightarrow> Inl TypeError
      | Some camera \<Rightarrow>
          webcam_frames camera_id cs
            \<lparr>frame_count = 0, detection_cooldown = 0, last_frame_save = 0, world = w\<rparr>)"



subsection \<open>States used in the examples\<close>

text \<open>
  The module state at import, \<^verbatim>\<open>FRAME_BUFFERS = {}\<close> and \<^verbatim>\<open>PENDING_CLIPS = {}\<close>, over
  a camera roster and a database; frames are numbered.
\<close>

definition empty_database :: database where
  "empty_database = \<lparr>detections = [], alerts = [], firefighters = [], firefighter_alerts = [],
                      firefighter_stats = []\<rparr>"

definition camera1 :: camera where
  "camera1 = \<lparr>cam_name = ''Camera 1 - Visual ML'', cam_location = ''Building A - Warehouse''\<rparr>"

definition initial_world :: "database \<Rightarrow> nat world" where
  "initial_world d = \<lparr>FRAME_BUFFERS = Map.empty, PENDING_CLIPS = Map.empty,
                       CAMERAS_CACHE = [1 \<mapsto> camera1], db = d, clips = []\<rparr>"

text \<open>
  One firefighter (id 7, station 1) with three pending alerts, received at seconds 100,
  200 and 300, and no statistics row yet.
\<close>

definition three_alerts_db :: database where
  "three_alerts_db =
     snd (create_firefighter_alert 3 3 (Some 7) (Some 1) ''fire'' ''Building A'' ''Warehouse'' (9 / 10) 300
       (snd (create_firefighter_alert 2 2 (Some 7) (Some 1) ''fire'' ''Building A'' ''Warehouse'' (9 / 10) 200
         (snd (create_firefighter_alert 1 1 (Some 7) (Some 1) ''fire'' ''Building A'' ''Warehouse'' (9 / 10) 100
           (empty_database\<lparr>firefighters :=
              [\<lparr>ff_id = 7, ff_name = ''FF Rodriguez'', ff_phone = ''+63-917-111-0001'',
                ff_station = Some 1, ff_status = ''online''\<rparr>]\<rparr>))))))"

text \<open>The statistics row of firefighter 7 after one response that took 10 seconds.\<close>

definition one_response_row :: firefighter_stat where
  "one_response_row = \<lparr>fs_id = 1, fs_firefighter_id = Some 7, total_responded = 1,
                        total_acknowledged = 0, total_alerts_today = 1,
                        avg_response_time_seconds = 10, last_response_at = Some (Naive 110),
                        stats_date = Some ''2026-01-01''\<rparr>"

text \<open>
  Station 1 with three firefighters online and one offline, and one online firefighter
  of station 2.
\<close>

definition station_roster_db :: database where
  "station_roster_db = empty_database\<lparr>firefighters :=
     [\<lparr>ff_id = 1, ff_name = ''FF Rodriguez'', ff_phone = ''0001'', ff_station = Some 1, ff_status = ''online''\<rparr>,
      \<lparr>ff_id = 2, ff_name = ''FF Martinez'', ff_phone = ''0002'', ff_station = Some 1, ff_status = ''offline''\<rparr>,
      \<lparr>ff_id = 3, ff_name = ''FF Santos'', ff_phone = ''0003'', ff_station = Some 1, ff_status = ''online''\<rparr>,
      \<lparr>ff_id = 4, ff_name = ''FF Garcia'', ff_phone = ''0004'', ff_station = Some 2, ff_status = ''online''\<rparr>,
      \<lparr>ff_id = 5, ff_name = ''FF Reyes'', ff_phone = ''0005'', ff_station = Some 1, ff_status = ''online''\<rparr>]\<rparr>"

text \<open>
  Captures of camera 1, all clock readings of a pass being \<open>t\<close>: a frame with a fire box
  of confidence 0.9, one with a smoke box of confidence 0.75, one with no box. And the
  loop state before the fifth frame of a fresh run, with the state the fifth frame
  leaves when it shows the fire at second 100.
\<close>

definition burning :: "real \<Rightarrow> nat capture" where
  "burning t = \<lparr>cap_frame = 0, cap_results = [[(''fire'', 9 / 10)]], t_buffer = t,
                 t_pending = t, t_detect = t\<rparr>"

definition smoky :: "real \<Rightarrow> nat capture" where
  "smoky t = \<lparr>cap_frame = 0, cap_results = [[(''smoke'', 3 / 4)]], t_buffer = t,
               t_pending = t, t_detect = t\<rparr>"

definition quiet :: "real \<Rightarrow> nat capture" where
  "quiet t = \<lparr>cap_frame = 0, cap_results = [[]], t_buffer = t, t_pending = t, t_detect = t\<rparr>"

definition ready_state :: "nat loop_state" where
  "ready_state = \<lparr>frame_count = 4, detection_cooldown = 0, last_frame_save = 0,
                   world = initial_world empty_database\<rparr>"

definition fired_state :: "nat loop_state" where
  "fired_state =
     \<lparr>frame_count = 5, detection_cooldown = 299, last_frame_save = 0,
      world = \<lparr>FRAME_BUFFERS = [1 \<mapsto> [(100, 0)]],
               PENDING_CLIPS = [1 \<mapsto> \<lparr>pc_detection_id = 1, trigger_time = 100\<rparr>],
               CAMERAS_CACHE = [1 \<mapsto> camera1],
               db = \<lparr>detections = [\<lparr>det_id = 1, det_camera_id = 1,
                                      det_camera_name = ''Camera 1 - Visual ML'',
                                      det_type = ''fire'', det_confidence = 9 / 10,
                                      det_location = ''Building A - Warehouse'',
                                      clip_path = None\<rparr>],
                     alerts = [\<lparr>al_id = 1, al_detection_id = 1, alert_level = ''critical'',
                                 al_status = ''active''\<rparr>],
                     firefighters = [], firefighter_alerts = [], firefighter_stats = []\<rparr>,
               clips = []\<rparr>\<rparr>"

text \<open>
  The frames of a second run of \<^verbatim>\<open>detect_from_webcam\<close>, started right after the first:
  four quiet frames, the fire again at second 102, and a quiet frame at second 106.
\<close>

definition second_run :: "nat capture list" where
  "second_run = [quiet 101, quiet 101, quiet 101, quiet 101, burning 102, quiet 106]"



definition refire_info :: detection_info where
  "refire_info = \<lparr>has_fire = True, has_smoke = False, max_fire_confidence = 9 / 10,
                   max_smoke_confidence = 0, detection_id = Some 2\<rparr>"

definition refire_world :: "nat world" where
  "refire_world = (world fired_state)
     \<lparr>PENDING_CLIPS := [1 \<mapsto> \<lparr>pc_detection_id = 2, trigger_time = 102\<rparr>],
      db := (db (world fired_state))
              \<lparr>detections := detections (db (world fired_state)) @
                 [\<lparr>det_id = 2, det_camera_id = 1, det_camera_name = ''Camera 1 - Visual ML'',
                   det_type = ''fire'', det_confidence = 9 / 10,
                   det_location = ''Building A - Warehouse'', clip_path = None\<rparr>],
               alerts := alerts (db (world fired_state)) @
                 [\<lparr>al_id = 2, al_detection_id = 2, alert_level = ''critical'',
                   al_status = ''active''\<rparr>]\<rparr>\<rparr>"



section \<open>Properties\<close>

subsection \<open>Frame buffer: retention and order\<close>

lemma evict_sorted: "sorted (map fst buf) \<Longrightarrow> sorted (map fst (evict cutoff buf))"
  by (induction buf) auto

lemma evict_set: "set (evict cutoff buf) \<subseteq> set buf"
  by (induction buf) auto

lemma evict_lower: "sorted (map fst buf) \<Longrightarrow> s \<in> set (evict cutoff buf) \<Longrightarrow> cutoff \<le> fst s"
  by (induction buf) (auto split: if_splits)

lemma update_frame_buffer_step:
  assumes "sorted (map fst (buffer_of w camera_id))"
    and "\<forall>s\<in>set (buffer_of w camera_id). fst s \<le> now"
  shows "\<exists>buf. FRAME_BUFFERS (update_frame_buffer camera_id frame now w) camera_id = Some buf
           \<and> sorted (map fst buf)
           \<and> (\<forall>s\<in>set buf. now - CLIP_BUFFER_SEC \<le> fst s \<and> fst s \<le> now)"
proof -
  let ?b = "buffer_of w camera_id @ [(now, frame)]"
  have s: "sorted (map fst ?b)" using assms by (auto simp: sorted_append)
  have u: "\<forall>s\<in>set ?b. fst s \<le> now" using assms by auto
  have "FRAME_BUFFERS (update_frame_buffer camera_id frame now w) camera_id
          = Some (evict (now - CLIP_BUFFER_SEC) ?b)"
    by (simp add: update_frame_buffer_def buffer_of_def Let_def)
  moreover have "sorted (map fst (evict (now - CLIP_BUFFER_SEC) ?b))" using s by (rule evict_sorted)
  moreover have "\<forall>s\<in>set (evict (now - CLIP_BUFFER_SEC) ?b). now - CLIP_BUFFER_SEC \<le> fst s \<and> fst s \<le> now"
    using evict_lower[OF s] evict_set[of "now - CLIP_BUFFER_SEC" ?b] u by blast
  ultimately show ?thesis by blast
qed

lemma selected_sorted: "sorted (map fst buf) \<Longrightarrow> sorted (map fst (selected_samples buf trigger))"
  by (simp add: selected_samples_def Let_def sorted_filter)


lemma appends_invariant:
  assumes "FRAME_BUFFERS w camera_id = None" and "sorted (map fst appends)"
  shows "sorted (map fst (buffer_of (fold (\<lambda>s. update_frame_buffer camera_id (snd s) (fst s)) appends w) camera_id))
     \<and> (\<forall>s\<in>set (buffer_of (fold (\<lambda>s. update_frame_buffer camera_id (snd s) (fst s)) appends w) camera_id).
           appends \<noteq> [] \<and> fst (last appends) - CLIP_BUFFER_SEC \<le> fst s \<and> fst s \<le> fst (last appends))
     \<and> (appends \<noteq> [] \<longrightarrow> FRAME_BUFFERS (fold (\<lambda>s. update_frame_buffer camera_id (snd s) (fst s)) appends w) camera_id \<noteq> None)"
  using assms(2)
proof (induction appends rule: rev_induct)
  case Nil
  show ?case using assms(1) by (simp add: buffer_of_def)
next
  case (snoc x xs)
  let ?w = "fold (\<lambda>s. update_frame_buffer camera_id (snd s) (fst s)) xs w"
  have sx: "sorted (map fst xs)" using snoc.prems by (simp add: sorted_append)
  have ih1: "sorted (map fst (buffer_of ?w camera_id))" using snoc.IH[OF sx] by blast
  have ih2: "\<forall>s\<in>set (buffer_of ?w camera_id). xs \<noteq> [] \<and> fst s \<le> fst (last xs)"
    using snoc.IH[OF sx] by blast
  have le: "xs \<noteq> [] \<Longrightarrow> fst (last xs) \<le> fst x"
    using snoc.prems by (auto simp: sorted_append)
  have ub: "\<forall>s\<in>set (buffer_of ?w camera_id). fst s \<le> fst x"
    using ih2 le by fastforce
  obtain buf where b: "FRAME_BUFFERS (update_frame_buffer camera_id (snd x) (fst x) ?w) camera_id = Some buf"
    and bs: "sorted (map fst buf)"
    and bb: "\<forall>s\<in>set buf. fst x - CLIP_BUFFER_SEC \<le> fst s \<and> fst s \<le> fst x"
    using update_frame_buffer_step[OF ih1 ub] by blast
  have f: "fold (\<lambda>s. update_frame_buffer camera_id (snd s) (fst s)) (xs @ [x]) w
            = update_frame_buffer camera_id (snd x) (fst x) ?w" by simp
  show ?case unfolding f using b bs bb by (simp add: buffer_of_def)
qed

text \<open>
  C7. A camera without a buffer receives a sequence of appends whose capture times never
  decrease. After the last append (so after each one, every prefix being such a
  sequence) the camera's buffer is ordered by capture time and holds only samples
  captured within \<open>CLIP_BUFFER_SEC\<close> of that append, and the frames selected for a
  clip, for any trigger time, are in capture order.
\<close>

theorem ring_buffer_retention_and_order:
  assumes "FRAME_BUFFERS w camera_id = None" and "sorted (map fst appends)" and "appends \<noteq> []"
  shows "\<exists>buf. FRAME_BUFFERS (fold (\<lambda>s. update_frame_buffer camera_id (snd s) (fst s)) appends w) camera_id = Some buf
     \<and> sorted (map fst buf)
     \<and> (\<forall>s\<in>set buf. fst (last appends) - CLIP_BUFFER_SEC \<le> fst s \<and> fst s \<le> fst (last appends))
     \<and> (\<forall>trigger. sorted (map fst (selected_samples buf trigger)))"
proof -
  let ?w = "fold (\<lambda>s. update_frame_buffer camera_id (snd s) (fst s)) appends w"
  from appends_invariant[OF assms(1,2)] assms(3)
  obtain buf where b: "FRAME_BUFFERS ?w camera_id = Some buf" by blast
  then have e: "buffer_of ?w camera_id = buf" by (simp add: buffer_of_def)
  have "sorted (map fst buf)" using appends_invariant[OF assms(1,2)] e by simp
  moreover have "\<forall>s\<in>set buf. fst (last appends) - CLIP_BUFFER_SEC \<le> fst s \<and> fst s \<le> fst (last appends)"
    using appends_invariant[OF assms(1,2)] e by simp
  ultimately show ?thesis using b selected_sorted by blast
qed

theorem ring_buffer_retention_and_order_witness:
  "FRAME_BUFFERS (initial_world empty_database) 1 = None
   \<and> sorted (map fst [(0 :: real, 10), (5, 11), (8, 12 :: nat)])
   \<and> (\<exists>buf. FRAME_BUFFERS (fold (\<lambda>s. update_frame_buffer 1 (snd s) (fst s))
                  [(0, 10), (5, 11), (8, 12)] (initial_world empty_database)) 1 = Some buf
        \<and> sorted (map fst buf)
        \<and> (\<forall>s\<in>set buf. 8 - CLIP_BUFFER_SEC \<le> fst s \<and> fst s \<le> 8)
        \<and> (\<forall>trigger. sorted (map fst (selected_samples buf trigger))))"
proof -
  have h1: "FRAME_BUFFERS (initial_world empty_database) 1 = None"
    by (simp add: initial_world_def)
  have h2: "sorted (map fst [(0 :: real, 10), (5, 11), (8, 12 :: nat)])" by simp
  have h3: "[(0 :: real, 10), (5, 11), (8, 12 :: nat)] \<noteq> []" by simp
  show ?thesis
    using ring_buffer_retention_and_order [OF h1 h2 h3] h1 h2 by simp
qed

subsection \<open>Response tracking and statistics\<close>

lemma sql_eq_Some [simp]: "sql_eq a (Some f) = (a = Some f)"
  by (cases a) (auto simp: sql_eq_def)

lemma stats_row_insert_or_ignore_present:
  "stats_row f tbl = Some r \<Longrightarrow> insert_or_ignore_stats (Some f) today tbl = tbl"
  by (auto simp: stats_row_def insert_or_ignore_stats_def list_ex_iff find_Some_iff)

lemma find_map_upd:
  assumes "\<And>r. Q (g r) = Q r"
  shows "find Q (map (\<lambda>r. if P r then g r else r) tbl)
           = map_option (\<lambda>r. if P r then g r else r) (find Q tbl)"
  by (induction tbl) (auto simp: assms)

lemma find_snoc: "find Q (xs @ [x]) = (case find Q xs of None \<Rightarrow> (if Q x then Some x else None) | Some y \<Rightarrow> Some y)"
  by (induction xs) auto

lemma set_responded_key [simp]: "fs_firefighter_id (set_responded l t r) = fs_firefighter_id r"
  by (simp add: set_responded_def)

lemma set_acknowledged_key [simp]: "fs_firefighter_id (set_acknowledged t r) = fs_firefighter_id r"
  by (simp add: set_acknowledged_def)

lemma stats_row_key: "stats_row f tbl = Some r \<Longrightarrow> fs_firefighter_id r = Some f"
  by (auto simp: stats_row_def find_Some_iff)

lemma stats_row_responded:
  assumes "stats_row f tbl = Some r"
  shows "stats_row f (update_firefighter_stats (Some f) ''responded'' received_at responded_at today tbl)
          = Some (set_responded (response_time_of received_at responded_at) responded_at r)"
  using assms stats_row_key[OF assms]
  by (simp add: update_firefighter_stats_def Let_def stats_row_insert_or_ignore_present stats_row_def find_map_upd)

lemma stats_row_acknowledged:
  assumes "stats_row f tbl = Some r" and "response_type \<noteq> ''responded''"
  shows "stats_row f (update_firefighter_stats (Some f) response_type received_at responded_at today tbl)
          = Some (set_acknowledged responded_at r)"
  using assms stats_row_key[OF assms(1)]
  by (simp add: update_firefighter_stats_def Let_def stats_row_insert_or_ignore_present stats_row_def find_map_upd)

lemma stats_row_other:
  assumes "f' \<noteq> f"
  shows "stats_row f' (update_firefighter_stats (Some f) response_type received_at responded_at today tbl)
          = stats_row f' tbl"
proof -
  have a: "stats_row f' (insert_or_ignore_stats (Some f) today tbl) = stats_row f' tbl"
    using assms by (auto simp: stats_row_def insert_or_ignore_stats_def find_snoc split: option.splits)
  have b: "\<And>t. stats_row f' (map (\<lambda>r. if sql_eq (fs_firefighter_id r) (Some f) then g r else r) t)
             = stats_row f' t" if k: "\<And>r. fs_firefighter_id (g r) = fs_firefighter_id r" for g
  proof -
    fix t
    show "stats_row f' (map (\<lambda>r. if sql_eq (fs_firefighter_id r) (Some f) then g r else r) t) = stats_row f' t"
      using assms by (induction t) (auto simp: stats_row_def k)
  qed
  show ?thesis
    by (simp add: update_firefighter_stats_def Let_def a b del: sql_eq_Some)
qed


text \<open>
  C4. A call with response type \<^verbatim>\<open>'responded'\<close> and latency \<open>L\<close>, on a firefighter whose
  statistics row has \<open>n\<close> responses and average \<open>a\<close>, leaves \<open>n + 1\<close> responses and the
  average \<open>(a * n + L) / (n + 1)\<close>. For a firefighter with no row yet (the row is created
  with zero counters and zero average), three responses that took 10, 20 and 30 seconds
  leave 3 responses and the average 20.
\<close>

theorem responded_updates_incremental_mean:
  "(stats_row f tbl = Some r \<and> 0 \<le> total_responded r \<longrightarrow>
      (\<exists>r'. stats_row f (update_firefighter_stats (Some f) ''responded'' received_at responded_at
                today tbl) = Some r'
         \<and> total_responded r' = total_responded r + 1
         \<and> avg_response_time_seconds r'
             = (avg_response_time_seconds r * real_of_int (total_responded r)
                  + response_time_of received_at responded_at)
               / (real_of_int (total_responded r) + 1)))
   \<and> stats_row 7 (firefighter_stats
        (respond_to_firefighter_alert 3 ''responded'' 330 day
          (respond_to_firefighter_alert 2 ''responded'' 220 day
            (respond_to_firefighter_alert 1 ''responded'' 110 day three_alerts_db))))
      = Some \<lparr>fs_id = 1, fs_firefighter_id = Some 7, total_responded = 3,
               total_acknowledged = 0, total_alerts_today = 3,
               avg_response_time_seconds = 20, last_response_at = Some (Naive 330),
               stats_date = Some day\<rparr>"
proof (intro conjI impI)
  assume a: "stats_row f tbl = Some r \<and> 0 \<le> total_responded r"
  have "stats_row f (update_firefighter_stats (Some f) ''responded'' received_at responded_at today tbl)
          = Some (set_responded (response_time_of received_at responded_at) responded_at r)"
    using a by (simp add: stats_row_responded)
  moreover have "real_of_int (total_responded r + 1) = real_of_int (total_responded r) + 1"
    by simp
  ultimately show "\<exists>r'. stats_row f (update_firefighter_stats (Some f) ''responded'' received_at
                responded_at today tbl) = Some r'
         \<and> total_responded r' = total_responded r + 1
         \<and> avg_response_time_seconds r'
             = (avg_response_time_seconds r * real_of_int (total_responded r)
                  + response_time_of received_at responded_at)
               / (real_of_int (total_responded r) + 1)"
    by (simp add: set_responded_def)
next
  show "stats_row 7 (firefighter_stats
        (respond_to_firefighter_alert 3 ''responded'' 330 day
          (respond_to_firefighter_alert 2 ''responded'' 220 day
            (respond_to_firefighter_alert 1 ''responded'' 110 day three_alerts_db))))
      = Some \<lparr>fs_id = 1, fs_firefighter_id = Some 7, total_responded = 3,
               total_acknowledged = 0, total_alerts_today = 3,
               avg_response_time_seconds = 20, last_response_at = Some (Naive 330),
               stats_date = Some day\<rparr>"
    by (simp add: three_alerts_db_def create_firefighter_alert_def empty_database_def Let_def
        next_id_def respond_to_firefighter_alert_def update_firefighter_stats_def
        insert_or_ignore_stats_def set_responded_def response_time_of_def stats_row_def)
qed

theorem responded_updates_incremental_mean_witness:
  "stats_row 7 [one_response_row] = Some one_response_row
   \<and> 0 \<le> total_responded one_response_row
   \<and> (\<exists>r'. stats_row 7 (update_firefighter_stats (Some 7) ''responded'' (Naive 200) (Naive 220)
               ''2026-01-01'' [one_response_row]) = Some r'
        \<and> total_responded r' = 2 \<and> avg_response_time_seconds r' = 15)"
proof -
  have h: "stats_row 7 [one_response_row] = Some one_response_row
             \<and> 0 \<le> total_responded one_response_row"
    by (simp add: stats_row_def one_response_row_def)
  have v: "total_responded one_response_row = 1"
    "avg_response_time_seconds one_response_row = 10"
    "response_time_of (Naive 200) (Naive 220) = 20"
    by (simp_all add: one_response_row_def response_time_of_def)
  show ?thesis
    using responded_updates_incremental_mean
      [of 7 "[one_response_row]" one_response_row "Naive 200" "Naive 220" "''2026-01-01''"] h v
    by simp
qed

text \<open>
  C5, as amended. A call with response type \<^verbatim>\<open>'acknowledged'\<close> increments
  \<open>total_acknowledged\<close> and \<open>total_alerts_today\<close> and sets \<open>last_response_at\<close> to the time
  of the call; every other field of the row, the average and \<open>total_responded\<close> among
  them, keeps its value.
\<close>

theorem acknowledged_updates_counters_and_last_response:
  assumes "stats_row f tbl = Some r"
  shows "stats_row f (update_firefighter_stats (Some f) ''acknowledged'' received_at responded_at
           today tbl)
         = Some (r\<lparr>total_acknowledged := total_acknowledged r + 1,
                    total_alerts_today := total_alerts_today r + 1,
                    last_response_at := Some responded_at\<rparr>)"
  using stats_row_acknowledged [OF assms, of "''acknowledged''"]
  by (simp add: set_acknowledged_def)

theorem acknowledged_updates_counters_and_last_response_witness:
  "stats_row 7 [one_response_row] = Some one_response_row
   \<and> stats_row 7 (update_firefighter_stats (Some 7) ''acknowledged'' (Naive 200) (Naive 220)
        ''2026-01-01'' [one_response_row])
      = Some \<lparr>fs_id = 1, fs_firefighter_id = Some 7, total_responded = 1,
               total_acknowledged = 1, total_alerts_today = 2,
               avg_response_time_seconds = 10, last_response_at = Some (Naive 220),
               stats_date = Some ''2026-01-01''\<rparr>"
proof -
  have h: "stats_row 7 [one_response_row] = Some one_response_row"
    by (simp add: stats_row_def one_response_row_def)
  show ?thesis
    using acknowledged_updates_counters_and_last_response [OF h] h
    by (simp add: one_response_row_def)
qed

text \<open>
  C5 as stated fails: acknowledging the second alert at second 220 moves
  \<open>last_response_at\<close> from 110 to 220.
\<close>

theorem acknowledged_overwrites_last_response_at:
  "map last_response_at (firefighter_stats
       (respond_to_firefighter_alert 1 ''responded'' 110 ''2026-01-01'' three_alerts_db))
     = [Some (Naive 110)]
   \<and> map last_response_at (firefighter_stats
       (respond_to_firefighter_alert 2 ''acknowledged'' 220 ''2026-01-01''
         (respond_to_firefighter_alert 1 ''responded'' 110 ''2026-01-01'' three_alerts_db)))
     = [Some (Naive 220)]"
  by (simp add: three_alerts_db_def create_firefighter_alert_def empty_database_def Let_def
      next_id_def respond_to_firefighter_alert_def update_firefighter_stats_def
      insert_or_ignore_stats_def set_responded_def set_acknowledged_def response_time_of_def)





text \<open>
  C1, as amended. A call whose id resolves to no record at all changes nothing: no alert
  record is overwritten, no statistics row is touched, and nothing is raised.
\<close>

theorem respond_to_unknown_alert_changes_nothing:
  assumes "find (\<lambda>r. fa_id r = alert_id) (firefighter_alerts d) = None"
  shows "respond_to_firefighter_alert alert_id response_type now today d = d"
proof -
  have n: "\<forall>r\<in>set (firefighter_alerts d). fa_id r \<noteq> alert_id"
    using assms by (simp add: find_None_iff)
  have m: "map (\<lambda>r. if fa_id r = alert_id
                  then r\<lparr>fa_status := response_type, fa_response_type := Some response_type,
                         fa_responded_at := Some (Naive now)\<rparr>
                  else r) (firefighter_alerts d) = firefighter_alerts d"
    using n by (simp add: map_idI)
  show ?thesis
    by (simp add: respond_to_firefighter_alert_def Let_def m assms)
qed

theorem respond_to_unknown_alert_changes_nothing_witness:
  "find (\<lambda>r. fa_id r = 9) (firefighter_alerts three_alerts_db) = None
   \<and> respond_to_firefighter_alert 9 ''responded'' 400 ''2026-01-01'' three_alerts_db
       = three_alerts_db"
proof -
  have h: "find (\<lambda>r. fa_id r = 9) (firefighter_alerts three_alerts_db) = None"
    by (simp add: three_alerts_db_def create_firefighter_alert_def empty_database_def Let_def
        next_id_def)
  show ?thesis
    using respond_to_unknown_alert_changes_nothing [OF h] h by simp
qed

text \<open>
  C1 as stated fails: alert 1 is answered at second 110 and is then in status
  \<^verbatim>\<open>'responded'\<close>; a second call on it at second 150 overwrites its response time and
  counts a second response.
\<close>

theorem respond_twice_counts_twice:
  "map fa_status (firefighter_alerts
       (respond_to_firefighter_alert 1 ''responded'' 110 ''2026-01-01'' three_alerts_db))
     = [''responded'', ''pending'', ''pending'']
   \<and> map total_responded (firefighter_stats
       (respond_to_firefighter_alert 1 ''responded'' 110 ''2026-01-01'' three_alerts_db)) = [1]
   \<and> map total_responded (firefighter_stats
       (respond_to_firefighter_alert 1 ''responded'' 150 ''2026-01-01''
         (respond_to_firefighter_alert 1 ''responded'' 110 ''2026-01-01'' three_alerts_db))) = [2]
   \<and> map fa_responded_at (firefighter_alerts
       (respond_to_firefighter_alert 1 ''responded'' 150 ''2026-01-01''
         (respond_to_firefighter_alert 1 ''responded'' 110 ''2026-01-01'' three_alerts_db)))
     = [Some (Naive 150), None, None]"
  by (simp add: three_alerts_db_def create_firefighter_alert_def empty_database_def Let_def
      next_id_def respond_to_firefighter_alert_def update_firefighter_stats_def
      insert_or_ignore_stats_def set_responded_def response_time_of_def)

subsection \<open>Broadcast to a station\<close>

lemma broadcast_loop_rows:
  "\<exists>new. snd (broadcast_loop ffs sid aid did atype loc area conf ts ids d)
            = d\<lparr>firefighter_alerts := firefighter_alerts d @ new\<rparr>
     \<and> fst (broadcast_loop ffs sid aid did atype loc area conf ts ids d) = ids @ map fa_id new
     \<and> map fa_firefighter_id new = map (\<lambda>f. Some (ff_id f)) ffs
     \<and> (\<forall>r\<in>set new. fa_status r = ''pending'' \<and> fa_alert_id r = aid
            \<and> fa_detection_id r = did \<and> fa_station_id r = sid)"
proof (induction ffs arbitrary: ids d)
  case Nil
  have "snd (broadcast_loop [] sid aid did atype loc area conf ts ids d)
          = d\<lparr>firefighter_alerts := firefighter_alerts d @ []\<rparr>" by simp
  then show ?case by force
next
  case (Cons ff ffs)
  let ?r = "create_firefighter_alert aid did (Some (ff_id ff)) sid atype loc area conf ts d"
  define row where "row = \<lparr>fa_id = next_id (map fa_id (firefighter_alerts d)), fa_alert_id = aid,
       fa_detection_id = did, fa_firefighter_id = Some (ff_id ff), fa_station_id = sid,
       fa_alert_type = atype, fa_location = loc, fa_area = area, fa_confidence = conf,
       fa_status = ''pending'', fa_response_type = None, fa_received_at = Naive ts,
       fa_responded_at = None\<rparr>"
  have row: "snd ?r = d\<lparr>firefighter_alerts := firefighter_alerts d @ [row]\<rparr>"
    and rid: "fst ?r = fa_id row"
    by (simp_all add: create_firefighter_alert_def Let_def row_def)
  have rff: "fa_firefighter_id row = Some (ff_id ff)"
    and rst: "fa_status row = ''pending'' \<and> fa_alert_id row = aid \<and> fa_detection_id row = did
              \<and> fa_station_id row = sid"
    by (simp_all add: row_def)
  from Cons.IH [of "ids @ [fst ?r]" "snd ?r"]
  obtain new where n1: "snd (broadcast_loop ffs sid aid did atype loc area conf ts (ids @ [fst ?r]) (snd ?r))
            = (snd ?r)\<lparr>firefighter_alerts := firefighter_alerts (snd ?r) @ new\<rparr>"
    and n2: "fst (broadcast_loop ffs sid aid did atype loc area conf ts (ids @ [fst ?r]) (snd ?r))
            = (ids @ [fst ?r]) @ map fa_id new"
    and n3: "map fa_firefighter_id new = map (\<lambda>f. Some (ff_id f)) ffs"
    and n4: "\<forall>r\<in>set new. fa_status r = ''pending'' \<and> fa_alert_id r = aid
            \<and> fa_detection_id r = did \<and> fa_station_id r = sid"
    by blast
  have s: "broadcast_loop (ff # ffs) sid aid did atype loc area conf ts ids d
         = broadcast_loop ffs sid aid did atype loc area conf ts (ids @ [fst ?r]) (snd ?r)"
    by (simp add: Let_def)
  have a: "snd (broadcast_loop (ff # ffs) sid aid did atype loc area conf ts ids d)
            = d\<lparr>firefighter_alerts := firefighter_alerts d @ (row # new)\<rparr>"
    unfolding s n1 by (simp add: row)
  have b: "fst (broadcast_loop (ff # ffs) sid aid did atype loc area conf ts ids d)
            = ids @ map fa_id (row # new)"
    unfolding s n2 by (simp add: rid)
  have c: "map fa_firefighter_id (row # new) = map (\<lambda>f. Some (ff_id f)) (ff # ffs)"
    using n3 rff by simp
  have e: "\<forall>r\<in>set (row # new). fa_status r = ''pending'' \<and> fa_alert_id r = aid
            \<and> fa_detection_id r = did \<and> fa_station_id r = sid"
    using n4 rst by simp
  show ?case using a b c e by blast
qed

lemma rows_per_key:
  assumes "map k new = map (\<lambda>f. Some (j f)) sel"
  shows "length (filter (\<lambda>r. k r = Some x) new) = length (filter (\<lambda>f. j f = x) sel)"
proof -
  have "length (filter (\<lambda>r. k r = Some x) new) = length (filter (\<lambda>v. v = Some x) (map k new))"
    by (simp add: filter_map comp_def)
  also have "\<dots> = length (filter (\<lambda>v. v = Some x) (map (\<lambda>f. Some (j f)) sel))"
    by (simp add: assms)
  also have "\<dots> = length (filter (\<lambda>f. j f = x) sel)"
    by (simp add: filter_map comp_def)
  finally show ?thesis .
qed

lemma distinct_key_filter:
  assumes "distinct (map j xs)" and "g \<in> set xs"
  shows "filter (\<lambda>f. j f = j g) xs = [g]"
  using assms
proof (induction xs)
  case Nil
  then show ?case by simp
next
  case (Cons a xs)
  show ?case
  proof (cases "a = g")
    case True
    have "j g \<notin> j ` set xs" using Cons.prems True by simp
    then have "\<forall>f\<in>set xs. j f \<noteq> j g" by (metis imageI)
    then have "filter (\<lambda>f. j f = j g) xs = []" by (simp add: filter_empty_conv)
    then show ?thesis using True by simp
  next
    case False
    then have "g \<in> set xs" using Cons.prems by simp
    moreover have "j a \<notin> j ` set xs" using Cons.prems by simp
    then have "j a \<noteq> j g" using \<open>g \<in> set xs\<close> by (metis imageI)
    ultimately show ?thesis using Cons.IH Cons.prems by simp
  qed
qed

text \<open>
  C6. Broadcasting an alert to a station appends one row per firefighter of that station
  whose status is \<^verbatim>\<open>'online'\<close>, and nothing else: every new row is \<^verbatim>\<open>'pending'\<close> and
  carries the same alert, detection and station; with the roster's ids distinct (the
  primary key), an online firefighter of the station gets exactly one row, and a
  firefighter who is not online, or of another station, gets none. A station with three
  online firefighters and one offline gets exactly three rows.
\<close>

theorem broadcast_creates_one_pending_row_per_online_firefighter:
  assumes "distinct (map ff_id (firefighters d))"
  shows "\<exists>new. snd (broadcast_alert_to_station station alert det atype loc area conf ts d)
             = d\<lparr>firefighter_alerts := firefighter_alerts d @ new\<rparr>
     \<and> fst (broadcast_alert_to_station station alert det atype loc area conf ts d) = map fa_id new
     \<and> length new = length (filter (\<lambda>f. sql_eq (ff_station f) station \<and> ff_status f = ''online'')
                              (firefighters d))
     \<and> (\<forall>r\<in>set new. fa_status r = ''pending'' \<and> fa_alert_id r = alert
            \<and> fa_detection_id r = det \<and> fa_station_id r = station)
     \<and> (\<forall>g\<in>set (firefighters d).
            length (filter (\<lambda>r. fa_firefighter_id r = Some (ff_id g)) new)
              = (if sql_eq (ff_station g) station \<and> ff_status g = ''online'' then 1 else 0))"
proof -
  let ?sel = "filter (\<lambda>f. sql_eq (ff_station f) station \<and> ff_status f = ''online'') (firefighters d)"
  from broadcast_loop_rows [of ?sel station alert det atype loc area conf ts "[]" d]
  obtain new where n: "snd (broadcast_loop ?sel station alert det atype loc area conf ts [] d)
            = d\<lparr>firefighter_alerts := firefighter_alerts d @ new\<rparr>
     \<and> fst (broadcast_loop ?sel station alert det atype loc area conf ts [] d) = [] @ map fa_id new
     \<and> map fa_firefighter_id new = map (\<lambda>f. Some (ff_id f)) ?sel
     \<and> (\<forall>r\<in>set new. fa_status r = ''pending'' \<and> fa_alert_id r = alert
            \<and> fa_detection_id r = det \<and> fa_station_id r = station)" ..
  note n1 = n [THEN conjunct1]
  note n2 = n [THEN conjunct2, THEN conjunct1]
  note n3 = n [THEN conjunct2, THEN conjunct2, THEN conjunct1]
  note n4 = n [THEN conjunct2, THEN conjunct2, THEN conjunct2]
  have len: "length new = length ?sel"
  proof -
    have "length (map fa_firefighter_id new) = length (map (\<lambda>f. Some (ff_id f)) ?sel)"
      by (simp only: n3)
    then show ?thesis by (simp only: length_map)
  qed
  have per: "length (filter (\<lambda>r. fa_firefighter_id r = Some (ff_id g)) new)
              = (if sql_eq (ff_station g) station \<and> ff_status g = ''online'' then 1 else 0)"
    if g: "g \<in> set (firefighters d)" for g
  proof -
    have "length (filter (\<lambda>r. fa_firefighter_id r = Some (ff_id g)) new)
            = length (filter (\<lambda>f. ff_id f = ff_id g) ?sel)"
      using n3 by (rule rows_per_key)
    also have "\<dots> = length (filter (\<lambda>f. sql_eq (ff_station f) station \<and> ff_status f = ''online'')
                         (filter (\<lambda>f. ff_id f = ff_id g) (firefighters d)))"
      by (simp add: conj_commute)
    also have "\<dots> = length (filter (\<lambda>f. sql_eq (ff_station f) station \<and> ff_status f = ''online'') [g])"
      using distinct_key_filter [OF assms g] by simp
    finally show ?thesis by simp
  qed
  have n2': "fst (broadcast_loop ?sel station alert det atype loc area conf ts [] d) = map fa_id new"
    using n2 by simp
  have b: "broadcast_alert_to_station station alert det atype loc area conf ts d
             = broadcast_loop ?sel station alert det atype loc area conf ts [] d"
    by (simp add: broadcast_alert_to_station_def Let_def)
  show ?thesis
    unfolding b
  proof (intro exI conjI)
    show "snd (broadcast_loop ?sel station alert det atype loc area conf ts [] d)
            = d\<lparr>firefighter_alerts := firefighter_alerts d @ new\<rparr>" by (rule n1)
    show "fst (broadcast_loop ?sel station alert det atype loc area conf ts [] d) = map fa_id new"
      by (rule n2')
    show "length new = length ?sel" by (rule len)
    show "\<forall>r\<in>set new. fa_status r = ''pending'' \<and> fa_alert_id r = alert
            \<and> fa_detection_id r = det \<and> fa_station_id r = station" by (rule n4)
    show "\<forall>g\<in>set (firefighters d).
            length (filter (\<lambda>r. fa_firefighter_id r = Some (ff_id g)) new)
              = (if sql_eq (ff_station g) station \<and> ff_status g = ''online'' then 1 else 0)"
      using per by (intro ballI)
  qed
qed

theorem broadcast_creates_one_pending_row_per_online_firefighter_witness:
  "distinct (map ff_id (firefighters station_roster_db))
   \<and> (\<exists>new. snd (broadcast_alert_to_station (Some 1) 10 20 ''fire'' ''Building A'' ''Warehouse''
                (9 / 10) 100 station_roster_db)
             = station_roster_db\<lparr>firefighter_alerts := firefighter_alerts station_roster_db @ new\<rparr>
        \<and> length new = 3
        \<and> (\<forall>r\<in>set new. fa_status r = ''pending'' \<and> fa_alert_id r = 10 \<and> fa_detection_id r = 20
               \<and> fa_station_id r = Some 1))"
proof -
  have h: "distinct (map ff_id (firefighters station_roster_db))"
    by (simp add: station_roster_db_def empty_database_def)
  have l: "length (filter (\<lambda>f. sql_eq (ff_station f) (Some 1) \<and> ff_status f = ''online'')
                     (firefighters station_roster_db)) = 3"
    by (simp add: station_roster_db_def empty_database_def sql_eq_def)
  from broadcast_creates_one_pending_row_per_online_firefighter
      [OF h, of "Some 1" 10 20 "''fire''" "''Building A''" "''Warehouse''" "9 / 10" 100]
  obtain new where n: "snd (broadcast_alert_to_station (Some 1) 10 20 ''fire'' ''Building A'' ''Warehouse''
                (9 / 10) 100 station_roster_db)
             = station_roster_db\<lparr>firefighter_alerts := firefighter_alerts station_roster_db @ new\<rparr>
     \<and> fst (broadcast_alert_to_station (Some 1) 10 20 ''fire'' ''Building A'' ''Warehouse''
                (9 / 10) 100 station_roster_db) = map fa_id new
     \<and> length new = length (filter (\<lambda>f. sql_eq (ff_station f) (Some 1) \<and> ff_status f = ''online'')
                              (firefighters station_roster_db))
     \<and> (\<forall>r\<in>set new. fa_status r = ''pending'' \<and> fa_alert_id r = 10
            \<and> fa_detection_id r = 20 \<and> fa_station_id r = Some 1)
     \<and> (\<forall>g\<in>set (firefighters station_roster_db).
            length (filter (\<lambda>r. fa_firefighter_id r = Some (ff_id g)) new)
              = (if sql_eq (ff_station g) (Some 1) \<and> ff_status g = ''online'' then 1 else 0))" ..
  note a = n [THEN conjunct1]
  note b = n [THEN conjunct2, THEN conjunct2, THEN conjunct1]
  note c = n [THEN conjunct2, THEN conjunct2, THEN conjunct2, THEN conjunct1]
  have len3: "length new = 3" using b l by simp
  show ?thesis
  proof (intro conjI exI)
    show "distinct (map ff_id (firefighters station_roster_db))" by (rule h)
    show "snd (broadcast_alert_to_station (Some 1) 10 20 ''fire'' ''Building A'' ''Warehouse''
                (9 / 10) 100 station_roster_db)
             = station_roster_db\<lparr>firefighter_alerts := firefighter_alerts station_roster_db @ new\<rparr>"
      by (rule a)
    show "length new = 3" by (rule len3)
    show "\<forall>r\<in>set new. fa_status r = ''pending'' \<and> fa_alert_id r = 10 \<and> fa_detection_id r = 20
               \<and> fa_station_id r = Some 1" by (rule c)
  qed
qed

subsection \<open>Detection gate and capture loop\<close>

lemma next_id_positive: "next_id ids \<ge> 1"
proof -
  have "fold max ids a \<ge> a" for a :: int
    by (induction ids arbitrary: a) (auto intro: order_trans [OF max.cobounded2])
  from this [of 0] show ?thesis by (simp add: next_id_def)
qed

lemma scan_box_detection_id: "detection_id (scan_box b info) = detection_id info"
  by (simp add: scan_box_def)

lemma fold_scan_box_detection_id: "detection_id (fold scan_box bs info) = detection_id info"
  by (induction bs arbitrary: info) (simp_all add: scan_box_detection_id)

lemma observe_detection_id: "detection_id (observe results) = None"
proof -
  have "detection_id (fold (\<lambda>result info. fold scan_box result info) rs info) = detection_id info"
    for rs info
    by (induction rs arbitrary: info) (simp_all add: fold_scan_box_detection_id)
  then show ?thesis by (simp add: observe_def init_info_def)
qed

lemma process_without_saving:
  "process_detection_results results camera_id frame False now w = Inr (observe results, w)"
  by (simp add: process_detection_results_def Let_def)

lemma gate_block_cooling:
  assumes "0 < c"
  shows "gate_block camera_id results frame now c w = Inr (observe results, c - 1, w)"
  using assms
  by (simp add: gate_block_def process_without_saving Let_def observe_detection_id truthy_def)

lemma process_cases:
  "process_detection_results results camera_id frame save now w =
     (if save \<and> qualifies results then
        (case get_camera_info camera_id w of
           None \<Rightarrow> Inl TypeError
         | Some camera \<Rightarrow>
             Inr ((observe results)\<lparr>detection_id := Some (next_id (map det_id (detections (db w))))\<rparr>,
                  w\<lparr>db := (if confidence_of (observe results) \<ge> 85 / 100
                            then snd (create_alert (next_id (map det_id (detections (db w))))
                                   (if log_type_of (observe results) = ''fire'' then ''critical'' else ''warning'')
                                   (snd (log_detection camera_id (log_type_of (observe results))
                                      (confidence_of (observe results)) (cam_location camera)
                                      (cam_name camera) (db w))))
                            else snd (log_detection camera_id (log_type_of (observe results))
                                      (confidence_of (observe results)) (cam_location camera)
                                      (cam_name camera) (db w))),
                    PENDING_CLIPS := (PENDING_CLIPS w)(camera_id \<mapsto>
                       \<lparr>pc_detection_id = next_id (map det_id (detections (db w))), trigger_time = now\<rparr>)\<rparr>))
      else Inr (observe results, w))"
  by (auto simp: process_detection_results_def Let_def qualifies_def log_detection_def
      split: option.splits)


lemma update_frame_buffer_frame [simp]:
  "db (update_frame_buffer camera_id frame now w) = db w"
  "PENDING_CLIPS (update_frame_buffer camera_id frame now w) = PENDING_CLIPS w"
  "CAMERAS_CACHE (update_frame_buffer camera_id frame now w) = CAMERAS_CACHE w"
  "clips (update_frame_buffer camera_id frame now w) = clips w"
  by (simp_all add: update_frame_buffer_def Let_def)

lemma update_frame_buffer_logged [simp]:
  "logged_ids (update_frame_buffer camera_id frame now w) = logged_ids w"
  by (simp add: logged_ids_def)

lemma update_detection_clip_ids:
  "map det_id (detections (update_detection_clip i p d)) = map det_id (detections d)"
  by (simp add: update_detection_clip_def comp_def)

lemma update_detection_clip_alerts:
  "alerts (update_detection_clip i p d) = alerts d"
  by (simp add: update_detection_clip_def)

lemma save_detection_clip_frame:
  "logged_ids (snd (save_detection_clip camera_id i t w)) = logged_ids w"
  "CAMERAS_CACHE (snd (save_detection_clip camera_id i t w)) = CAMERAS_CACHE w"
  "alerts (db (snd (save_detection_clip camera_id i t w))) = alerts (db w)"
  by (simp_all add: save_detection_clip_def Let_def logged_ids_def update_detection_clip_ids
      update_detection_clip_alerts)

lemma logged_ids_pending [simp]: "logged_ids (w\<lparr>PENDING_CLIPS := p\<rparr>) = logged_ids w"
  by (simp add: logged_ids_def)

lemma handle_pending_clips_frame [simp]:
  "logged_ids (handle_pending_clips camera_id now w) = logged_ids w"
  "CAMERAS_CACHE (handle_pending_clips camera_id now w) = CAMERAS_CACHE w"
  "alerts (db (handle_pending_clips camera_id now w)) = alerts (db w)"
  by (simp_all add: handle_pending_clips_def Let_def save_detection_clip_frame
      split: option.splits)

lemma gate_block_cases:
  "gate_block camera_id results frame now c w =
     (if c \<le> 0 \<and> qualifies results then
        (case get_camera_info camera_id w of
           None \<Rightarrow> Inl TypeError
         | Some camera \<Rightarrow>
             (case process_detection_results results camera_id frame True now w of
                Inl e \<Rightarrow> Inl e
              | Inr r \<Rightarrow> Inr (fst r, 299, snd r)))
      else Inr (observe results, (if 0 < c then c - 1 else c), w))"
proof -
  have p: "0 < next_id ids" for ids using next_id_positive [of ids] by simp
  then have q: "next_id ids \<noteq> 0" for ids by (metis less_irrefl)
  show ?thesis
    by (auto simp: gate_block_def process_cases Let_def truthy_def observe_detection_id q
        split: option.splits)
qed


lemma webcam_frame_between_gates:
  assumes "(frame_count s + 1) mod 5 \<noteq> 0"
  shows "\<exists>s'. webcam_frame camera_id c s = Inr s' \<and> frame_count s' = frame_count s + 1
     \<and> detection_cooldown s' = detection_cooldown s
     \<and> logged_ids (world s') = logged_ids (world s)
     \<and> CAMERAS_CACHE (world s') = CAMERAS_CACHE (world s)"
  using assms by (simp add: webcam_frame_def Let_def)

lemma webcam_frame_cooling:
  assumes "(frame_count s + 1) mod 5 = 0" and "0 < detection_cooldown s"
  shows "\<exists>s'. webcam_frame camera_id c s = Inr s' \<and> frame_count s' = frame_count s + 1
     \<and> detection_cooldown s' = detection_cooldown s - 1
     \<and> logged_ids (world s') = logged_ids (world s)
     \<and> CAMERAS_CACHE (world s') = CAMERAS_CACHE (world s)"
  using assms by (simp add: webcam_frame_def Let_def gate_block_cooling)

lemma webcam_frames_cooling:
  assumes "(frame_count s mod 5 + int (length cs)) div 5 \<le> detection_cooldown s"
  shows "\<exists>s'. webcam_frames camera_id cs s = Inr s'
     \<and> frame_count s' = frame_count s + int (length cs)
     \<and> detection_cooldown s' = detection_cooldown s - (frame_count s mod 5 + int (length cs)) div 5
     \<and> logged_ids (world s') = logged_ids (world s)
     \<and> CAMERAS_CACHE (world s') = CAMERAS_CACHE (world s)"
  using assms
proof (induction cs arbitrary: s)
  case Nil
  have "frame_count s mod 5 div 5 = 0" by simp
  then show ?case by simp
next
  case (Cons c cs)
  let ?n = "frame_count s" and ?k = "int (length cs)"
  have hyp: "(?n mod 5 + (?k + 1)) div 5 \<le> detection_cooldown s"
    using Cons.prems by (simp add: add.commute)
  show ?case
  proof (cases "(?n + 1) mod 5 = 0")
    case True
    have m: "?n mod 5 = 4" using True by presburger
    have d: "(?n mod 5 + (?k + 1)) div 5 = 1 + ?k div 5" using m by simp
    have pos: "0 < detection_cooldown s"
    proof -
      have "0 \<le> ?k div 5" by simp
      then show ?thesis using hyp d by linarith
    qed
    from webcam_frame_cooling [OF True pos, of camera_id c]
    obtain s1 where s1: "webcam_frame camera_id c s = Inr s1 \<and> frame_count s1 = ?n + 1
       \<and> detection_cooldown s1 = detection_cooldown s - 1
       \<and> logged_ids (world s1) = logged_ids (world s)
       \<and> CAMERAS_CACHE (world s1) = CAMERAS_CACHE (world s)" ..
    have m1: "frame_count s1 mod 5 = 0" using s1 True by simp
    have pre: "(frame_count s1 mod 5 + ?k) div 5 \<le> detection_cooldown s1"
      using m1 s1 hyp d by simp
    from Cons.IH [OF pre]
    obtain s' where s': "webcam_frames camera_id cs s1 = Inr s'
       \<and> frame_count s' = frame_count s1 + ?k
       \<and> detection_cooldown s' = detection_cooldown s1 - (frame_count s1 mod 5 + ?k) div 5
       \<and> logged_ids (world s') = logged_ids (world s1)
       \<and> CAMERAS_CACHE (world s') = CAMERAS_CACHE (world s1)" ..
    have e: "(?n mod 5 + int (length (c # cs))) div 5 = 1 + ?k div 5"
      using d by (simp add: add.commute)
    show ?thesis
    proof (intro exI conjI)
      show "webcam_frames camera_id (c # cs) s = Inr s'" using s1 s' by simp
      show "frame_count s' = ?n + int (length (c # cs))" using s1 s' by simp
      show "detection_cooldown s' = detection_cooldown s - (?n mod 5 + int (length (c # cs))) div 5"
        unfolding e using s1 s' m1 by simp
      show "logged_ids (world s') = logged_ids (world s)" using s1 s' by simp
      show "CAMERAS_CACHE (world s') = CAMERAS_CACHE (world s)" using s1 s' by simp
    qed
  next
    case False
    have m: "(?n + 1) mod 5 = ?n mod 5 + 1" using False by presburger
    from webcam_frame_between_gates [OF False, of camera_id c]
    obtain s1 where s1: "webcam_frame camera_id c s = Inr s1 \<and> frame_count s1 = ?n + 1
       \<and> detection_cooldown s1 = detection_cooldown s
       \<and> logged_ids (world s1) = logged_ids (world s)
       \<and> CAMERAS_CACHE (world s1) = CAMERAS_CACHE (world s)" ..
    have e: "frame_count s1 mod 5 + ?k = ?n mod 5 + (?k + 1)" using s1 m by simp
    have pre: "(frame_count s1 mod 5 + ?k) div 5 \<le> detection_cooldown s1"
      unfolding e using s1 hyp by simp
    from Cons.IH [OF pre]
    obtain s' where s': "webcam_frames camera_id cs s1 = Inr s'
       \<and> frame_count s' = frame_count s1 + ?k
       \<and> detection_cooldown s' = detection_cooldown s1 - (frame_count s1 mod 5 + ?k) div 5
       \<and> logged_ids (world s') = logged_ids (world s1)
       \<and> CAMERAS_CACHE (world s') = CAMERAS_CACHE (world s1)" ..
    have e2: "?n mod 5 + int (length (c # cs)) = ?n mod 5 + (?k + 1)" by simp
    show ?thesis
    proof (intro exI conjI)
      show "webcam_frames camera_id (c # cs) s = Inr s'" using s1 s' by simp
      show "frame_count s' = ?n + int (length (c # cs))" using s1 s' by simp
      show "detection_cooldown s' = detection_cooldown s - (?n mod 5 + int (length (c # cs))) div 5"
        unfolding e2 using s1 s' e by simp
      show "logged_ids (world s') = logged_ids (world s)" using s1 s' by simp
      show "CAMERAS_CACHE (world s') = CAMERAS_CACHE (world s)" using s1 s' by simp
    qed
  qed
qed





lemma gate_block_logged:
  assumes "gate_block camera_id results frame now c w = Inr (info, c', w')"
    and "logged_ids w' \<noteq> logged_ids w"
  shows "c \<le> 0 \<and> qualifies results \<and> c' = 299 \<and> CAMERAS_CACHE w camera_id \<noteq> None"
  using assms
  by (auto simp: gate_block_cases process_cases get_camera_info_def split: if_splits option.splits)

lemma webcam_frame_logged:
  assumes "webcam_frame camera_id c s = Inr s1"
    and "logged_ids (world s1) \<noteq> logged_ids (world s)"
  shows "frame_count s1 mod 5 = 0 \<and> detection_cooldown s1 = 299
     \<and> CAMERAS_CACHE (world s1) camera_id \<noteq> None"
proof (cases "(frame_count s + 1) mod 5 = 0")
  case False
  from webcam_frame_between_gates [OF False, of camera_id c] assms show ?thesis by auto
next
  case True
  let ?w2 = "handle_pending_clips camera_id (t_pending c)
               (update_frame_buffer camera_id (cap_frame c) (t_buffer c) (world s))"
  obtain info c' w' where g: "gate_block camera_id (cap_results c) (cap_frame c) (t_detect c)
      (detection_cooldown s) ?w2 = Inr (info, c', w')"
    and s1: "s1 = \<lparr>frame_count = frame_count s + 1, detection_cooldown = c',
        last_frame_save = (if frame_count s + 1 - last_frame_save s \<ge> 10 then frame_count s + 1
                           else last_frame_save s), world = w'\<rparr>"
    using assms(1) True
    by (auto simp: webcam_frame_def Let_def split: sum.splits)
  have neq: "logged_ids w' \<noteq> logged_ids ?w2" using assms(2) s1 by simp
  have k: "c' = 299 \<and> CAMERAS_CACHE ?w2 camera_id \<noteq> None"
    using gate_block_logged [OF g neq] by simp
  have cache: "CAMERAS_CACHE w' = CAMERAS_CACHE ?w2"
    using g by (auto simp: gate_block_cases process_cases split: if_splits option.splits)
  show ?thesis using True s1 k cache by simp
qed


subsection \<open>Evaluating the examples\<close>

lemmas settings_defs = CLIP_BEFORE_SEC_def CLIP_AFTER_SEC_def CLIP_DURATION_SEC_def
  CLIP_BUFFER_SEC_def FIRE_CONFIDENCE_THRESHOLD_def SMOKE_CONFIDENCE_THRESHOLD_def

lemmas loop_defs = webcam_frame_def update_frame_buffer_def buffer_of_def
  handle_pending_clips_def save_detection_clip_def selected_samples_def update_detection_clip_def
  gate_block_def process_detection_results_def log_type_of_def confidence_of_def threshold_of_def
  get_camera_info_def log_detection_def create_alert_def next_id_def truthy_def Let_def

lemmas example_defs = burning_def smoky_def quiet_def ready_state_def fired_state_def
  initial_world_def empty_database_def camera1_def

lemma observe_burning: "observe [[(''fire'', 9 / 10)]]
   = \<lparr>has_fire = True, has_smoke = False, max_fire_confidence = 9 / 10,
      max_smoke_confidence = 0, detection_id = None\<rparr>"
  by (simp add: observe_def scan_box_def init_info_def)


lemma observe_quiet: "observe [[]] = init_info"
  by (simp add: observe_def)

lemma burning_fires: "webcam_frame 1 (burning 100) ready_state = Inr fired_state"
  by (simp add: loop_defs example_defs settings_defs observe_burning)

lemma fired_logged: "logged_ids (world fired_state) \<noteq> logged_ids (world ready_state)"
  by (simp add: logged_ids_def example_defs)


subsection \<open>Cooldown\<close>

text \<open>
  C3. The gate runs on every fifth frame. When a frame of \<^verbatim>\<open>detect_from_webcam\<close> logs
  a detection (gate invocation N), the counter is 299 after it, and over any 1499 or
  fewer frames that follow, which hold the gate invocations N+1 to N+299, the loop
  keeps running and logs no detection, whatever the classifier reports. While the
  counter is positive the gate block still returns the frame's raw observation (flags
  and maximal confidences), with the state untouched.
\<close>

theorem cooldown_suppresses_detections:
  assumes "webcam_frame camera_id c s = Inr s1"
    and "logged_ids (world s1) \<noteq> logged_ids (world s)"
    and "length cs < 1500"
  shows "detection_cooldown s1 = 299
     \<and> (\<exists>s2. webcam_frames camera_id cs s1 = Inr s2
            \<and> logged_ids (world s2) = logged_ids (world s1)
            \<and> detection_cooldown s2 = 299 - int (length cs) div 5)
     \<and> (\<forall>k results frame now w. 0 < k \<longrightarrow>
            gate_block camera_id results frame now k w = Inr (observe results, k - 1, w))"
proof -
  have e: "frame_count s1 mod 5 = 0 \<and> detection_cooldown s1 = 299"
    using webcam_frame_logged [OF assms(1,2)] by simp
  have "int (length cs) div 5 \<le> 299" using assms(3) by simp
  then have pre: "(frame_count s1 mod 5 + int (length cs)) div 5 \<le> detection_cooldown s1"
    using e by simp
  from webcam_frames_cooling [OF pre, of camera_id]
  obtain s2 where s2: "webcam_frames camera_id cs s1 = Inr s2
     \<and> frame_count s2 = frame_count s1 + int (length cs)
     \<and> detection_cooldown s2 = detection_cooldown s1 - (frame_count s1 mod 5 + int (length cs)) div 5
     \<and> logged_ids (world s2) = logged_ids (world s1)
     \<and> CAMERAS_CACHE (world s2) = CAMERAS_CACHE (world s1)" ..
  have run: "\<exists>s2. webcam_frames camera_id cs s1 = Inr s2
            \<and> logged_ids (world s2) = logged_ids (world s1)
            \<and> detection_cooldown s2 = 299 - int (length cs) div 5"
  proof (intro exI conjI)
    show "webcam_frames camera_id cs s1 = Inr s2" using s2 by simp
    show "logged_ids (world s2) = logged_ids (world s1)" using s2 by simp
    show "detection_cooldown s2 = 299 - int (length cs) div 5" using s2 e by simp
  qed
  have blk: "\<forall>k results frame now w. 0 < k \<longrightarrow>
            gate_block camera_id results frame now k w = Inr (observe results, k - 1, w)"
    by (simp add: gate_block_cooling)
  show ?thesis using e run blk by (intro conjI) simp_all
qed

theorem cooldown_suppresses_detections_witness:
  "webcam_frame 1 (burning 100) ready_state = Inr fired_state
   \<and> logged_ids (world fired_state) \<noteq> logged_ids (world ready_state)
   \<and> length (replicate 1499 (burning 101)) < 1500
   \<and> detection_cooldown fired_state = 299
   \<and> (\<exists>s2. webcam_frames 1 (replicate 1499 (burning 101)) fired_state = Inr s2
          \<and> logged_ids (world s2) = [1]
          \<and> detection_cooldown s2 = 0)"
proof -
  have h3: "length (replicate 1499 (burning 101)) < 1500" by simp
  note t = cooldown_suppresses_detections [OF burning_fires fired_logged h3]
  from t [THEN conjunct2, THEN conjunct1]
  obtain s2 where s2: "webcam_frames 1 (replicate 1499 (burning 101)) fired_state = Inr s2
            \<and> logged_ids (world s2) = logged_ids (world fired_state)
            \<and> detection_cooldown s2 = 299 - int (length (replicate 1499 (burning 101))) div 5" ..
  have l: "logged_ids (world fired_state) = [1]" by (simp add: logged_ids_def fired_state_def)
  have c: "detection_cooldown fired_state = 299" by (simp add: fired_state_def)
  show ?thesis
  proof (intro conjI exI)
    show "webcam_frame 1 (burning 100) ready_state = Inr fired_state" by (rule burning_fires)
    show "logged_ids (world fired_state) \<noteq> logged_ids (world ready_state)" by (rule fired_logged)
    show "length (replicate 1499 (burning 101)) < 1500" by (rule h3)
    show "detection_cooldown fired_state = 299" by (rule c)
    show "webcam_frames 1 (replicate 1499 (burning 101)) fired_state = Inr s2" using s2 by simp
    show "logged_ids (world s2) = [1]" using s2 l by simp
    show "detection_cooldown s2 = 0" using s2 by simp
  qed
qed




subsection \<open>Logging, alerts and the pending clip\<close>



lemma process_logged:
  assumes "process_detection_results results camera_id frame save now w = Inr (info, w')"
    and "detection_id info = Some d"
  shows "save \<and> qualifies results \<and> d = next_id (logged_ids w)
     \<and> detections (db w') = detections (db w) @
          [\<lparr>det_id = d, det_camera_id = camera_id,
            det_camera_name = cam_name (the (CAMERAS_CACHE w camera_id)),
            det_type = log_type_of (observe results),
            det_confidence = confidence_of (observe results),
            det_location = cam_location (the (CAMERAS_CACHE w camera_id)), clip_path = None\<rparr>]
     \<and> alerts (db w') =
          (if 85 / 100 \<le> confidence_of (observe results)
           then alerts (db w) @ [\<lparr>al_id = next_id (map al_id (alerts (db w))), al_detection_id = d,
                   alert_level = (if log_type_of (observe results) = ''fire'' then ''critical''
                                  else ''warning''),
                   al_status = ''active''\<rparr>]
           else alerts (db w))
     \<and> PENDING_CLIPS w' = (PENDING_CLIPS w)(camera_id \<mapsto> \<lparr>pc_detection_id = d, trigger_time = now\<rparr>)"
proof (cases "save \<and> qualifies results")
  case False
  then have "info = observe results" using assms(1) by (auto simp: process_cases)
  then show ?thesis using assms(2) by (simp add: observe_detection_id)
next
  case True
  then obtain camera where cam: "CAMERAS_CACHE w camera_id = Some camera"
    using assms(1) by (auto simp: process_cases get_camera_info_def split: option.splits)
  show ?thesis
    using assms True cam
    by (auto simp: process_cases get_camera_info_def log_detection_def create_alert_def Let_def
        logged_ids_def)
qed





lemma refire_process:
  "process_detection_results [[(''fire'', 9 / 10)]] 1 (0 :: nat) True 102 (world fired_state)
     = Inr (refire_info, refire_world)"
  by (simp add: loop_defs example_defs settings_defs observe_burning refire_info_def
      refire_world_def)



text \<open>
  C2, as amended. There is one pending-clip slot per camera. A call of
  \<^verbatim>\<open>process_detection_results\<close> that logs a detection puts that detection and its
  trigger time into the camera's slot, whatever the slot held, and leaves the slots of
  other cameras alone; a call that logs nothing leaves every slot alone. A due slot is
  turned into one clip, named after the detection in the slot, and emptied; a slot that
  is not due is left alone.
\<close>

theorem pending_clip_slot_follows_latest_detection:
  "(process_detection_results results camera_id frame save now w = Inr (info, w')
      \<longrightarrow> PENDING_CLIPS w' =
            (case detection_id info of
               None \<Rightarrow> PENDING_CLIPS w
             | Some d \<Rightarrow> (PENDING_CLIPS w)(camera_id \<mapsto> \<lparr>pc_detection_id = d, trigger_time = now\<rparr>)))
   \<and> (PENDING_CLIPS v camera_id = Some p \<and> trigger_time p + CLIP_AFTER_SEC \<le> t
        \<and> buffer_of v camera_id \<noteq> []
      \<longrightarrow> (\<exists>cl. clips (handle_pending_clips camera_id t v) = clips v @ [cl]
                \<and> clip_name cl = (camera_id, pc_detection_id p))
          \<and> PENDING_CLIPS (handle_pending_clips camera_id t v) = (PENDING_CLIPS v)(camera_id := None))
   \<and> (PENDING_CLIPS v camera_id = Some p \<and> u < trigger_time p + CLIP_AFTER_SEC
      \<longrightarrow> handle_pending_clips camera_id u v = v)"
proof (intro conjI impI)
  assume a: "process_detection_results results camera_id frame save now w = Inr (info, w')"
  show "PENDING_CLIPS w' =
            (case detection_id info of
               None \<Rightarrow> PENDING_CLIPS w
             | Some d \<Rightarrow> (PENDING_CLIPS w)(camera_id \<mapsto> \<lparr>pc_detection_id = d, trigger_time = now\<rparr>))"
  proof (cases "detection_id info")
    case None
    then have "w' = w" using a
      by (auto simp: process_cases split: if_splits option.splits)
    then show ?thesis using None by simp
  next
    case (Some d)
    from process_logged [OF a Some] show ?thesis using Some by simp
  qed
next
  assume a: "PENDING_CLIPS v camera_id = Some p \<and> trigger_time p + CLIP_AFTER_SEC \<le> t
        \<and> buffer_of v camera_id \<noteq> []"
  then show "\<exists>cl. clips (handle_pending_clips camera_id t v) = clips v @ [cl]
                \<and> clip_name cl = (camera_id, pc_detection_id p)"
    by (simp add: handle_pending_clips_def save_detection_clip_def Let_def)
  from a show "PENDING_CLIPS (handle_pending_clips camera_id t v) = (PENDING_CLIPS v)(camera_id := None)"
    by (simp add: handle_pending_clips_def save_detection_clip_def Let_def)
next
  assume "PENDING_CLIPS v camera_id = Some p \<and> u < trigger_time p + CLIP_AFTER_SEC"
  then show "handle_pending_clips camera_id u v = v"
    by (simp add: handle_pending_clips_def)
qed

theorem pending_clip_slot_follows_latest_detection_witness:
  "process_detection_results [[(''fire'', 9 / 10)]] 1 (0 :: nat) True 102 (world fired_state)
     = Inr (refire_info, refire_world)
   \<and> PENDING_CLIPS (world fired_state) 1 = Some \<lparr>pc_detection_id = 1, trigger_time = 100\<rparr>
   \<and> PENDING_CLIPS refire_world 1 = Some \<lparr>pc_detection_id = 2, trigger_time = 102\<rparr>
   \<and> trigger_time \<lparr>pc_detection_id = 2, trigger_time = 102\<rparr> + CLIP_AFTER_SEC \<le> 106
   \<and> buffer_of refire_world 1 \<noteq> []
   \<and> 103 < trigger_time \<lparr>pc_detection_id = 2, trigger_time = 102\<rparr> + CLIP_AFTER_SEC
   \<and> (\<exists>cl. clips (handle_pending_clips 1 106 refire_world) = clips refire_world @ [cl]
          \<and> clip_name cl = (1, 2))
   \<and> handle_pending_clips 1 103 refire_world = refire_world"
proof -
  have h2: "PENDING_CLIPS refire_world 1 = Some \<lparr>pc_detection_id = 2, trigger_time = 102\<rparr>
     \<and> trigger_time \<lparr>pc_detection_id = 2, trigger_time = 102\<rparr> + CLIP_AFTER_SEC \<le> 106
     \<and> buffer_of refire_world 1 \<noteq> []"
    by (simp add: refire_world_def fired_state_def buffer_of_def settings_defs)
  have h3: "PENDING_CLIPS refire_world 1 = Some \<lparr>pc_detection_id = 2, trigger_time = 102\<rparr>
     \<and> 103 < trigger_time \<lparr>pc_detection_id = 2, trigger_time = 102\<rparr> + CLIP_AFTER_SEC"
    by (simp add: refire_world_def fired_state_def settings_defs)
  have h0: "PENDING_CLIPS (world fired_state) 1 = Some \<lparr>pc_detection_id = 1, trigger_time = 100\<rparr>"
    by (simp add: fired_state_def)
  note t = pending_clip_slot_follows_latest_detection
    [of "[[(''fire'', 9 / 10)]]" 1 0 True 102 "world fired_state" refire_info refire_world
        refire_world "\<lparr>pc_detection_id = 2, trigger_time = 102\<rparr>" 106 103]
  note t2 = t [THEN conjunct2, THEN conjunct1, rule_format, OF h2]
  note t3 = t [THEN conjunct2, THEN conjunct2, rule_format, OF h3]
  have c: "\<exists>cl. clips (handle_pending_clips 1 106 refire_world) = clips refire_world @ [cl]
          \<and> clip_name cl = (1, 2)"
    using t2 [THEN conjunct1] by simp
  show ?thesis using refire_process h0 h2 h3 c t3 by (intro conjI) simp_all
qed

text \<open>
  C2 as stated fails: a first run logs detection 1 at second 100 and is stopped; a second
  run, started at once, logs detection 2 at second 102, while the clip of detection 1 is
  pending. The slot then holds detection 2, and the only clip written, at second 106,
  belongs to detection 2; detection 1 never gets one.
\<close>

theorem second_detection_replaces_pending_clip:
  "webcam_frame 1 (burning 100) ready_state = Inr fired_state
   \<and> PENDING_CLIPS (world fired_state) 1 = Some \<lparr>pc_detection_id = 1, trigger_time = 100\<rparr>
   \<and> PENDING_CLIPS (world (projr (detect_from_webcam 1 (take 5 second_run) (world fired_state)))) 1
        = Some \<lparr>pc_detection_id = 2, trigger_time = 102\<rparr>
   \<and> map clip_name (clips (world (projr (detect_from_webcam 1 second_run (world fired_state)))))
        = [(1, 2)]
   \<and> map clip_path (detections (db (world (projr (detect_from_webcam 1 second_run
         (world fired_state)))))) = [None, Some (1, 2)]"
  by (simp add: burning_fires detect_from_webcam_def second_run_def loop_defs example_defs
      settings_defs observe_burning observe_quiet init_info_def)


end
